theory Spec2Isabelle
  imports Main "HOL-Library.Sublist"
begin

section \<open>Values and errors of the Python program\<close>

text \<open>
  The program is \<^verbatim>\<open>src/main.py\<close>. Python integers are unbounded, so they are \<open>int\<close>.
  A Python \<^verbatim>\<open>str\<close> is modelled as a \<open>string\<close> whose characters are the code points
  0 to 255; code points above 255 are outside the model. Exceptions are values of
  \<open>py_error\<close>, and a function that can raise returns \<open>py_error + 'a\<close>.
\<close>

datatype py_error = ValueError | OverflowError

text \<open>
  A Python float is either finite, and then it is the dyadic rational \<open>m * 2 ^ e\<close>,
  or NaN, or an infinity (the flag is the sign: \<open>True\<close> for negative).
\<close>

datatype pyfloat = Finite int int | NaN | Infinity bool

text \<open>
  The raw \<^verbatim>\<open>progress\<close> field as the JSON decoder delivers it: \<^verbatim>\<open>None\<close>, a bool, an
  int, a float or a str.
\<close>

datatype pyval = PNone | PBool bool | PInt int | PFloat pyfloat | PStr string

section \<open>Library functions used by \<^verbatim>\<open>parse_progress\<close>\<close>

text \<open>\<^verbatim>\<open>int(x)\<close> on a float truncates towards zero; NaN and the infinities raise.\<close>

definition trunc_float :: "int \<Rightarrow> int \<Rightarrow> int" where
  "trunc_float m e =
     (if 0 \<le> e then m * 2 ^ nat e else sgn m * (\<bar>m\<bar> div 2 ^ nat (- e)))"

fun int_of_float :: "pyfloat \<Rightarrow> py_error + int" where
  "int_of_float (Finite m e) = Inr (trunc_float m e)"
| "int_of_float NaN = Inl ValueError"
| "int_of_float (Infinity neg) = Inl OverflowError"

text \<open>
  \<^verbatim>\<open>str.strip()\<close> removes the characters for which \<^verbatim>\<open>str.isspace()\<close> holds from both
  ends. Among the code points 0 to 255 these are 9 to 13, 28 to 32, 133 and 160.
\<close>

definition is_space :: "char \<Rightarrow> bool" where
  "is_space c = ((of_char c :: nat) \<in> {9, 10, 11, 12, 13, 28, 29, 30, 31, 32, 133, 160})"

definition strip_with :: "(char \<Rightarrow> bool) \<Rightarrow> string \<Rightarrow> string" where
  "strip_with p s = rev (dropWhile p (rev (dropWhile p s)))"

definition py_strip :: "string \<Rightarrow> string" where
  "py_strip s = strip_with is_space s"

text \<open>
  \<^verbatim>\<open>s.split(sep)\<close> for a one-character separator: the list of the segments between
  the separators, never empty.
\<close>

fun py_split :: "char \<Rightarrow> string \<Rightarrow> string list" where
  "py_split sep [] = [[]]"
| "py_split sep (c # cs) =
     (if c = sep then [] # py_split sep cs
      else (case py_split sep cs of
              [] \<Rightarrow> [[c]]
            | p # ps \<Rightarrow> (c # p) # ps))"

text \<open>
  \<^verbatim>\<open>int(s)\<close> on a str, base 10: surrounding whitespace is skipped (for \<^verbatim>\<open>int\<close> the code
  points 9 to 13, 32, 133 and 160), then an optional sign, then decimal digits in which
  single underscores may separate digits. Anything else raises \<^verbatim>\<open>ValueError\<close>.
  (CPython from 3.11 on also raises \<^verbatim>\<open>ValueError\<close> for more than 4300 digits; that
  limit is not modelled.)
\<close>

definition is_int_space :: "char \<Rightarrow> bool" where
  "is_int_space c = ((of_char c :: nat) \<in> {9, 10, 11, 12, 13, 32, 133, 160})"

definition is_digit :: "char \<Rightarrow> bool" where
  "is_digit c = (48 \<le> (of_char c :: nat) \<and> (of_char c :: nat) \<le> 57)"

definition digit_val :: "char \<Rightarrow> int" where
  "digit_val c = int (of_char c) - 48"

fun parse_digits :: "int \<Rightarrow> string \<Rightarrow> py_error + int" where
  "parse_digits acc [] = Inr acc"
| "parse_digits acc (c # cs) =
     (if is_digit c then parse_digits (10 * acc + digit_val c) cs
      else if c = CHR ''_'' then
        (case cs of
           [] \<Rightarrow> Inl ValueError
         | d # ds \<Rightarrow>
             if is_digit d then parse_digits (10 * acc + digit_val d) ds
             else Inl ValueError)
      else Inl ValueError)"

definition parse_unsigned :: "string \<Rightarrow> py_error + int" where
  "parse_unsigned s =
     (case s of
        [] \<Rightarrow> Inl ValueError
      | c # cs \<Rightarrow> if is_digit c then parse_digits (digit_val c) cs else Inl ValueError)"

definition py_int :: "string \<Rightarrow> py_error + int" where
  "py_int s =
     (case strip_with is_int_space s of
        [] \<Rightarrow> Inl ValueError
      | c # cs \<Rightarrow>
          if c = CHR ''+'' then parse_unsigned cs
          else if c = CHR ''-'' then map_sum id uminus (parse_unsigned cs)
          else parse_unsigned (c # cs))"

section \<open>\<^verbatim>\<open>parse_progress\<close>\<close>

text \<open>
  \<^verbatim>\<open>try: ... except ValueError: return 0\<close>: only \<^verbatim>\<open>ValueError\<close> is caught.
\<close>

definition except_ValueError :: "py_error + int \<Rightarrow> int \<Rightarrow> py_error + int" where
  "except_ValueError r d =
     (case r of Inl ValueError \<Rightarrow> Inr d | Inl e \<Rightarrow> Inl e | Inr n \<Rightarrow> Inr n)"

text \<open>
  Lines 91 to 117. \<^verbatim>\<open>isinstance(val, (int, float))\<close> holds for a bool, an int and a
  float, and \<^verbatim>\<open>int(val)\<close> there is outside every \<^verbatim>\<open>try\<close>.
\<close>

definition parse_progress :: "pyval \<Rightarrow> py_error + int" where
  "parse_progress val =
     (case val of
        PNone \<Rightarrow> Inr 0
      | PBool b \<Rightarrow> Inr (if b then 1 else 0)
      | PInt n \<Rightarrow> Inr n
      | PFloat f \<Rightarrow> int_of_float f
      | PStr s \<Rightarrow>
          (let val_str = py_strip s in
           if CHR ''-'' \<in> set val_str then
             (let parts = py_split (CHR ''-'') val_str in
              except_ValueError (py_int (py_strip (last parts))) 0)
           else except_ValueError (py_int val_str) 0))"

section \<open>Rendering integers and timestamps\<close>

text \<open>\<^verbatim>\<open>str(n)\<close> of an int, as an f-string renders it: decimal, with \<^verbatim>\<open>-\<close> when negative.\<close>

definition digit_char :: "nat \<Rightarrow> char" where
  "digit_char k = char_of (48 + k)"

fun nat_digits :: "nat \<Rightarrow> string" where
  "nat_digits n =
     (if n < 10 then [digit_char n] else nat_digits (n div 10) @ [digit_char (n mod 10)])"

declare nat_digits.simps [simp del]

definition str_int :: "int \<Rightarrow> string" where
  "str_int i = (if i < 0 then CHR ''-'' # nat_digits (nat (- i)) else nat_digits (nat i))"

text \<open>
  The proleptic Gregorian calendar of \<^verbatim>\<open>datetime\<close>, after the library's reference
  implementation (\<^verbatim>\<open>_ord2ymd\<close>): day 1 is 0001-01-01, and 1970-01-01 is day 719163.
\<close>

definition DAYS_BEFORE_MONTH :: "int list" where
  "DAYS_BEFORE_MONTH = [-1, 0, 31, 59, 90, 120, 151, 181, 212, 243, 273, 304, 334]"

definition DAYS_IN_MONTH :: "int list" where
  "DAYS_IN_MONTH = [-1, 31, 28, 31, 30, 31, 30, 31, 31, 30, 31, 30, 31]"

text \<open>
  The second half of \<^verbatim>\<open>_ord2ymd\<close>: month and day from the zero-based day \<open>n\<close> of the
  year, with the estimate \<^verbatim>\<open>(n + 50) >> 5\<close> of the month corrected by the tables.
\<close>

definition month_and_day :: "bool \<Rightarrow> int \<Rightarrow> int \<times> int" where
  "month_and_day leapyear n =
     (let month = (n + 50) div 32;
          preceding = DAYS_BEFORE_MONTH ! nat month
                        + (if month > 2 \<and> leapyear then 1 else 0)
      in if preceding > n then
           (let month = month - 1;
                preceding = preceding - (DAYS_IN_MONTH ! nat month
                              + (if month = 2 \<and> leapyear then 1 else 0))
            in (month, n - preceding + 1))
         else (month, n - preceding + 1))"

definition ord2ymd :: "int \<Rightarrow> int \<times> int \<times> int" where
  "ord2ymd ordinal =
     (let n = ordinal - 1;
          n400 = n div 146097; n = n mod 146097;
          n100 = n div 36524; n = n mod 36524;
          n4 = n div 1461; n = n mod 1461;
          n1 = n div 365; n = n mod 365;
          year = n400 * 400 + 1 + n100 * 100 + n4 * 4 + n1
      in if n1 = 4 \<or> n100 = 4 then (year - 1, 12, 31)
         else
           (let leapyear = (n1 = 3 \<and> (n4 \<noteq> 24 \<or> n100 = 3))
            in (year, month_and_day leapyear n)))"

text \<open>\<^verbatim>\<open>%m\<close>, \<^verbatim>\<open>%d\<close>, \<^verbatim>\<open>%H\<close>, \<^verbatim>\<open>%M\<close> and \<^verbatim>\<open>%S\<close>: two digits, zero-padded.\<close>

definition pad2 :: "int \<Rightarrow> string" where
  "pad2 n = [digit_char (nat (n div 10)), digit_char (nat (n mod 10))]"

text \<open>
  Lines 87 to 89. \<^verbatim>\<open>datetime.fromtimestamp(timestamp, tz=utc)\<close> raises when the year
  is outside 1 to 9999 (the kind of exception depends on the platform and on how far out
  the timestamp is; the model raises \<^verbatim>\<open>ValueError\<close> for all of them). \<^verbatim>\<open>%Y\<close> is
  rendered as the C library of Linux does: the year in decimal, without padding, which
  has four digits from the year 1000 on.
\<close>

definition format_date_ics :: "int \<Rightarrow> py_error + string" where
  "format_date_ics timestamp =
     (let days = timestamp div 86400;
          secs = timestamp mod 86400;
          (year, month, day) = ord2ymd (719163 + days)
      in if year < 1 \<or> 9999 < year then Inl ValueError
         else Inr (str_int year @ pad2 month @ pad2 day @ ''T''
                    @ pad2 (secs div 3600) @ pad2 (secs mod 3600 div 60) @ pad2 (secs mod 60)
                    @ ''Z''))"

section \<open>\<^verbatim>\<open>generate_ics\<close>\<close>

definition MINUTES_PER_CHAPTER :: int where
  "MINUTES_PER_CHAPTER = 4"

text \<open>
  An activity as \<^verbatim>\<open>get_manga_history\<close> collects it: \<^verbatim>\<open>media\<close> is present, and the two
  names of the title may each be \<^verbatim>\<open>None\<close>.
\<close>

record media_info =
  media_id :: int
  title_english :: "string option"
  title_romaji :: "string option"

record activity =
  act_id :: int
  createdAt :: int
  progress :: pyval
  status :: string
  media :: media_info

text \<open>
  The state of the loop: \<^verbatim>\<open>progress_tracker\<close>, \<^verbatim>\<open>time_tracker['global_last_end']\<close> and
  \<^verbatim>\<open>ics_lines\<close>.
\<close>

record state =
  progress_tracker :: "int \<rightharpoonup> int"
  global_last_end :: int
  ics_lines :: "string list"

text \<open>
  The local variables of one iteration of the loop; \<open>summary\<close> is \<open>None\<close> when the
  iteration ends in \<^verbatim>\<open>continue\<close>.
\<close>

record session =
  title :: string
  current_progress :: int
  previous_progress :: int
  chapters_read :: int
  duration_minutes :: int
  duration_seconds :: int
  calculated_start :: int
  calculated_end :: int
  summary :: "string option"

text \<open>Line 138: \<^verbatim>\<open>english or romaji or "Unknown Title"\<close>; \<^verbatim>\<open>None\<close> and \<^verbatim>\<open>""\<close> are falsy.\<close>

definition truthy_str :: "string option \<Rightarrow> bool" where
  "truthy_str x = (case x of None \<Rightarrow> False | Some s \<Rightarrow> s \<noteq> [])"

definition resolve_title :: "media_info \<Rightarrow> string" where
  "resolve_title m =
     (case title_english m of
        Some e \<Rightarrow>
          if e \<noteq> [] then e
          else (case title_romaji m of
                  Some r \<Rightarrow> if r \<noteq> [] then r else ''Unknown Title''
                | None \<Rightarrow> ''Unknown Title'')
      | None \<Rightarrow>
          (case title_romaji m of
             Some r \<Rightarrow> if r \<noteq> [] then r else ''Unknown Title''
           | None \<Rightarrow> ''Unknown Title''))"

text \<open>Lines 146 to 156.\<close>

definition compute_chapters_read :: "int \<Rightarrow> int \<Rightarrow> int" where
  "compute_chapters_read cur prev =
     (let cr = (if cur > prev then
                  (let d = cur - prev in if prev = 0 \<and> d > 500 then 1 else d)
                else 1)
      in if cr < 1 then 1 else cr)"

text \<open>Lines 163 to 171.\<close>

definition shift_start :: "int \<Rightarrow> int \<Rightarrow> int" where
  "shift_start original_start last_busy_until =
     (if original_start < last_busy_until then
        (if last_busy_until - original_start < 7200 then last_busy_until + 1
         else original_start)
      else original_start)"

text \<open>Lines 182 to 191; \<open>None\<close> is \<^verbatim>\<open>continue\<close>.\<close>

definition make_summary :: "string \<Rightarrow> string \<Rightarrow> int \<Rightarrow> int \<Rightarrow> int \<Rightarrow> string option" where
  "make_summary st ttl cur prev cr =
     (if st = ''COMPLETED'' then Some (''Completed: '' @ ttl)
      else if cur \<noteq> 0 then
        (if cr > 1 then
           Some (''Read '' @ ttl @ '' (Ch. '' @ str_int (prev + 1) @ ''-'' @ str_int cur @ '')'')
         else Some (''Read '' @ ttl @ '' Ch. '' @ str_int cur))
      else None)"

text \<open>
  Lines 137 to 173 and 182 to 191: what one iteration computes from the state before it.
  \<^verbatim>\<open>progress_tracker.get(media_id, 0)\<close> is an int, and goes through \<^verbatim>\<open>parse_progress\<close>
  too.
\<close>

definition locals_of :: "state \<Rightarrow> activity \<Rightarrow> py_error + session" where
  "locals_of st act =
     (case parse_progress (progress act) of
        Inl e \<Rightarrow> Inl e
      | Inr cur \<Rightarrow>
          (case parse_progress
                  (PInt (case progress_tracker st (media_id (media act)) of
                           None \<Rightarrow> 0 | Some v \<Rightarrow> v)) of
             Inl e \<Rightarrow> Inl e
           | Inr prev \<Rightarrow>
               (let ttl = resolve_title (media act);
                    cr = compute_chapters_read cur prev;
                    mins = cr * MINUTES_PER_CHAPTER;
                    secs = mins * 60;
                    start = shift_start (createdAt act) (global_last_end st)
                in Inr \<lparr>title = ttl, current_progress = cur, previous_progress = prev,
                         chapters_read = cr, duration_minutes = mins, duration_seconds = secs,
                         calculated_start = start, calculated_end = start + secs,
                         summary = make_summary (status act) ttl cur prev cr\<rparr>)))"

text \<open>Lines 193 to 205.\<close>

definition event_block :: "activity \<Rightarrow> session \<Rightarrow> string \<Rightarrow> py_error + string list" where
  "event_block act l smry =
     (case format_date_ics (calculated_start l) of
        Inl e \<Rightarrow> Inl e
      | Inr dt_start \<Rightarrow>
          (case format_date_ics (calculated_end l) of
             Inl e \<Rightarrow> Inl e
           | Inr dt_end \<Rightarrow>
               Inr [''BEGIN:VEVENT'',
                    ''UID:anilist-'' @ str_int (act_id act) @ ''@anilist.co'',
                    ''DTSTAMP:'' @ dt_start,
                    ''DTSTART:'' @ dt_start,
                    ''DTEND:'' @ dt_end,
                    ''SUMMARY:'' @ smry,
                    ''DESCRIPTION:Read '' @ str_int (chapters_read l) @ '' chapters. Duration: ''
                       @ str_int (duration_minutes l) @ '' mins.'',
                    ''END:VEVENT'']))"

text \<open>
  The body of the loop, lines 137 to 206: the trackers are updated (lines 176 to 179)
  before the summary decides whether a block is appended.
\<close>

definition step :: "state \<Rightarrow> activity \<Rightarrow> py_error + state" where
  "step st act =
     (case locals_of st act of
        Inl e \<Rightarrow> Inl e
      | Inr l \<Rightarrow>
          (let st1 = st\<lparr>progress_tracker :=
                          (if current_progress l > 0
                           then (progress_tracker st)(media_id (media act) \<mapsto> current_progress l)
                           else progress_tracker st),
                        global_last_end := calculated_end l\<rparr>
           in case summary l of
                None \<Rightarrow> Inr st1
              | Some smry \<Rightarrow>
                  (case event_block act l smry of
                     Inl e \<Rightarrow> Inl e
                   | Inr block \<Rightarrow> Inr (st1\<lparr>ics_lines := ics_lines st1 @ block\<rparr>))))"

fun loop :: "state \<Rightarrow> activity list \<Rightarrow> py_error + state" where
  "loop st [] = Inr st"
| "loop st (act # acts) =
     (case step st act of Inl e \<Rightarrow> Inl e | Inr st' \<Rightarrow> loop st' acts)"

text \<open>Lines 122 to 134.\<close>

definition initial_state :: state where
  "initial_state =
     \<lparr>progress_tracker = Map.empty, global_last_end = 0,
      ics_lines = [''BEGIN:VCALENDAR'', ''VERSION:2.0'',
                   ''PRODID:-//AniList History Export//EN'',
                   ''CALSCALE:GREGORIAN'', ''METHOD:PUBLISH'']\<rparr>"

text \<open>
  Lines 119 to 211. \<^verbatim>\<open>list.sort\<close> is stable, as \<open>sort_key\<close> is. The result is the list
  \<^verbatim>\<open>ics_lines\<close> that is joined with newlines and written to the file; an exception
  leaves no file.
\<close>

definition generate_ics :: "activity list \<Rightarrow> py_error + string list" where
  "generate_ics activities =
     (case loop initial_state (sort_key act_id activities) of
        Inl e \<Rightarrow> Inl e
      | Inr st \<Rightarrow> Inr (ics_lines st @ [''END:VCALENDAR'']))"

text \<open>
  The states after each iteration, and the local variables of each iteration, for the
  iterations that the loop reaches.
\<close>

fun states_after :: "state \<Rightarrow> activity list \<Rightarrow> state list" where
  "states_after st [] = []"
| "states_after st (act # acts) =
     (case step st act of Inl e \<Rightarrow> [] | Inr st' \<Rightarrow> st' # states_after st' acts)"

fun sessions :: "state \<Rightarrow> activity list \<Rightarrow> session list" where
  "sessions st [] = []"
| "sessions st (act # acts) =
     (case locals_of st act of
        Inl e \<Rightarrow> []
      | Inr l \<Rightarrow> l # (case step st act of Inl e \<Rightarrow> [] | Inr st' \<Rightarrow> sessions st' acts))"

text \<open>The states that the loop can be in, from any list of activities.\<close>

inductive reachable :: "state \<Rightarrow> bool" where
  reachable_init: "reachable initial_state"
| reachable_step: "reachable st \<Longrightarrow> step st act = Inr st' \<Longrightarrow> reachable st'"

section \<open>Events and the specification's sub-block\<close>







section \<open>The specification's reading of a range string\<close>

text \<open>
  The specification's words for a string with a separator: split on \<^verbatim>\<open>-\<close>, take the last
  segment, strip whitespace, parse as integer, and 0 when that parse fails. Here the
  string that is split is the raw one.
\<close>

definition spec_range_end :: "string \<Rightarrow> int" where
  "spec_range_end s =
     (case py_int (py_strip (last (py_split (CHR ''-'') s))) of
        Inl e \<Rightarrow> 0
      | Inr n \<Rightarrow> n)"

section \<open>Example inputs\<close>

definition media_X :: media_info where
  "media_X = \<lparr>media_id = 7, title_english = Some ''X'', title_romaji = None\<rparr>"

definition binge_example :: "activity list" where
  "binge_example =
     [\<lparr>act_id = 1, createdAt = 500, progress = PInt 1, status = ''CURRENT'', media = media_X\<rparr>,
      \<lparr>act_id = 2, createdAt = 1000, progress = PInt 101, status = ''CURRENT'', media = media_X\<rparr>,
      \<lparr>act_id = 3, createdAt = 2000, progress = PInt 102, status = ''CURRENT'', media = media_X\<rparr>]"

definition tracked_state :: state where
  "tracked_state = initial_state\<lparr>progress_tracker := [7 \<mapsto> 10], global_last_end := 3400\<rparr>"

definition media_Y :: media_info where
  "media_Y = \<lparr>media_id = 8, title_english = None, title_romaji = Some ''Y''\<rparr>"

definition media_untitled :: media_info where
  "media_untitled = \<lparr>media_id = 9, title_english = Some [], title_romaji = None\<rparr>"

definition example_activity :: "media_info \<Rightarrow> int \<Rightarrow> pyval \<Rightarrow> string \<Rightarrow> activity" where
  "example_activity m t p s =
     \<lparr>act_id = 5, createdAt = t, progress = p, status = s, media = m\<rparr>"

definition scenario :: "media_info \<Rightarrow> activity list" where
  "scenario m =
     [\<lparr>act_id = 1, createdAt = 1000, progress = PInt 10, status = ''CURRENT'', media = m\<rparr>,
      \<lparr>act_id = 2, createdAt = 1010, progress = PInt 25, status = ''CURRENT'', media = m\<rparr>]"

section \<open>Properties of \<^verbatim>\<open>parse_progress\<close>\<close>

lemma py_split_nonempty: "py_split c s \<noteq> []"
  by (induction s) (auto split: list.splits)

lemma py_split_no_sep: "c \<notin> set s \<Longrightarrow> py_split c s = [s]"
  by (induction s) (auto split: list.splits)

lemma py_split_length: "c \<in> set s \<Longrightarrow> 2 \<le> length (py_split c s)"
proof (induction s)
  case Nil
  then show ?case by simp
next
  case (Cons x xs)
  show ?case
  proof (cases "x = c")
    case True
    with py_split_nonempty[of c xs] show ?thesis 
      by (cases "py_split c xs") auto
  next
    case False
    with Cons show ?thesis by (cases "py_split c xs") auto
  qed
qed

lemma last_py_split: "last (py_split c s) = rev (takeWhile (\<lambda>x. x \<noteq> c) (rev s))"
proof (induction s)
  case Nil
  then show ?case by simp
next
  case (Cons x xs)
  show ?case
  proof (cases "c \<in> set xs")
    case True
    then have tw: "takeWhile (\<lambda>x. x \<noteq> c) (rev xs @ [x]) = takeWhile (\<lambda>x. x \<noteq> c) (rev xs)"
      by (simp add: takeWhile_append1)
    from True obtain p q ps where sp: "py_split c xs = p # q # ps"
      using py_split_length[OF True] by (cases "py_split c xs"; cases "tl (py_split c xs)") auto
    with Cons tw show ?thesis by auto
  next
    case False
    then have "takeWhile (\<lambda>x. x \<noteq> c) (rev xs @ [x]) = rev xs @ (if x \<noteq> c then [x] else [])"
      by (subst takeWhile_append2) auto
    moreover from False have "py_split c xs = [xs]" by (rule py_split_no_sep)
    ultimately show ?thesis
      by simp
  qed
qed

lemma sep_notin_last_py_split: "c \<notin> set (last (py_split c s))"
  unfolding last_py_split using set_takeWhileD by fastforce

lemma strip_with_subset: "set (strip_with p s) \<subseteq> set s"
  by (auto simp: strip_with_def dest!: set_dropWhileD)

lemma strip_with_append_spaces:
  assumes "\<forall>x\<in>set w. p x"
  shows "strip_with p (u @ w) = strip_with p u"
proof (cases "\<forall>x\<in>set u. p x")
  case True
  with assms have "dropWhile p (u @ w) = []"
    by (subst dropWhile_eq_Nil_conv) auto
  moreover from True have "dropWhile p u = []"
    by (subst dropWhile_eq_Nil_conv) auto
  ultimately show ?thesis by (simp only: strip_with_def)
next
  case False
  then obtain x where "x \<in> set u" "\<not> p x" by blast
  then have "dropWhile p (u @ w) = dropWhile p u @ w"
    by (rule dropWhile_append1)
  moreover from assms have "dropWhile p (rev w @ rev (dropWhile p u)) = dropWhile p (rev (dropWhile p u))"
    by (subst dropWhile_append2) auto
  ultimately show ?thesis by (simp only: strip_with_def rev_append)
qed

lemma last_segment_strip:
  assumes c: "c \<in> set s" and np: "\<not> p c"
  shows "strip_with p (last (py_split c (strip_with p s))) = strip_with p (last (py_split c s))"
proof -
  let ?t = "dropWhile p s"
  let ?r = "rev ?t"
  have "c \<notin> set (takeWhile p s)"
    using np by (auto dest: set_takeWhileD)
  moreover have "set s = set (takeWhile p s) \<union> set ?t"
    by (metis set_append takeWhile_dropWhile_id)
  ultimately have ct: "c \<in> set ?t" using c by blast
  have 1: "takeWhile (\<lambda>x. x \<noteq> c) (rev s) = takeWhile (\<lambda>x. x \<noteq> c) ?r"
  proof -
    have "rev s = ?r @ rev (takeWhile p s)" by (metis takeWhile_dropWhile_id rev_append)
    moreover from ct have "c \<in> set ?r" by simp
    then have "takeWhile (\<lambda>x. x \<noteq> c) (?r @ rev (takeWhile p s)) = takeWhile (\<lambda>x. x \<noteq> c) ?r"
      by (rule takeWhile_append1) simp
    ultimately show ?thesis by (simp only:)
  qed
  have "takeWhile (\<lambda>x. x \<noteq> c) (takeWhile p ?r @ dropWhile p ?r)
          = takeWhile p ?r @ takeWhile (\<lambda>x. x \<noteq> c) (dropWhile p ?r)"
    by (rule takeWhile_append2) (use np in \<open>auto dest: set_takeWhileD\<close>)
  then have 2: "takeWhile (\<lambda>x. x \<noteq> c) ?r = takeWhile p ?r @ takeWhile (\<lambda>x. x \<noteq> c) (dropWhile p ?r)"
    by (simp only: takeWhile_dropWhile_id)
  have sp: "\<forall>x\<in>set (rev (takeWhile p ?r)). p x"
    by (auto dest: set_takeWhileD)
  have "last (py_split c s) = rev (takeWhile (\<lambda>x. x \<noteq> c) (dropWhile p ?r)) @ rev (takeWhile p ?r)"
    by (simp only: last_py_split 1 2 rev_append)
  moreover have "last (py_split c (strip_with p s)) = rev (takeWhile (\<lambda>x. x \<noteq> c) (dropWhile p ?r))"
    by (simp only: last_py_split strip_with_def rev_rev_ident)
  ultimately show ?thesis
    using strip_with_append_spaces[OF sp] by (simp only:)
qed

lemma minus_not_space: "\<not> is_space (CHR ''-'')"
  by (simp add: is_space_def)

lemma parse_digits_nonneg: "0 \<le> acc \<Longrightarrow> parse_digits acc s = Inr n \<Longrightarrow> 0 \<le> n"
proof (induction acc s rule: parse_digits.induct)
  case (1 acc)
  then show ?case by simp
next
  case (2 acc c cs)
  have dv: "\<And>d. is_digit d \<Longrightarrow> 0 \<le> digit_val d"
    by (simp add: is_digit_def digit_val_def)
  from 2 dv show ?case
    by (auto split: if_splits list.splits)
qed

lemma parse_unsigned_nonneg: "parse_unsigned s = Inr n \<Longrightarrow> 0 \<le> n"
  by (auto simp: parse_unsigned_def is_digit_def digit_val_def split: list.splits if_splits
      intro: parse_digits_nonneg[rotated])

lemma py_int_nonneg: "CHR ''-'' \<notin> set s \<Longrightarrow> py_int s = Inr n \<Longrightarrow> 0 \<le> n"
proof -
  assume a: "CHR ''-'' \<notin> set s" and b: "py_int s = Inr n"
  from a strip_with_subset[of is_int_space s] have "CHR ''-'' \<notin> set (strip_with is_int_space s)" by auto
  with b show ?thesis
    by (auto simp: py_int_def split: list.splits if_splits dest: parse_unsigned_nonneg)
qed

lemma parse_digits_ValueError: "parse_digits acc s = Inl e \<Longrightarrow> e = ValueError"
  by (induction acc s rule: parse_digits.induct) (auto split: if_splits list.splits)

lemma py_int_ValueError: "py_int s = Inl e \<Longrightarrow> e = ValueError"
  by (auto simp: py_int_def parse_unsigned_def map_sum_def split: list.splits if_splits sum.splits
      dest: parse_digits_ValueError)

lemma except_ValueError_py_int: "\<exists>n. except_ValueError (py_int s) d = Inr n"
  by (cases "py_int s") (auto simp: except_ValueError_def dest: py_int_ValueError split: py_error.splits)

lemma parse_progress_str_last_segment:
  assumes "CHR ''-'' \<in> set s"
  shows "parse_progress (PStr s)
           = except_ValueError (py_int (py_strip (last (py_split (CHR ''-'') s)))) 0"
proof -
  have "CHR ''-'' \<in> set (py_strip s)"
  proof -
    have "set (dropWhile is_space s) \<union> set (takeWhile is_space s) = set s"
      by (metis set_append takeWhile_dropWhile_id Un_commute)
    moreover have "CHR ''-'' \<notin> set (takeWhile is_space s)"
      using minus_not_space by (auto dest: set_takeWhileD)
    ultimately have a: "CHR ''-'' \<in> set (rev (dropWhile is_space s))"
      using assms by auto
    let ?r = "rev (dropWhile is_space s)"
    have "set (dropWhile is_space ?r) \<union> set (takeWhile is_space ?r) = set ?r"
      by (metis set_append takeWhile_dropWhile_id Un_commute)
    moreover have "CHR ''-'' \<notin> set (takeWhile is_space ?r)"
      using minus_not_space by (auto dest: set_takeWhileD)
    ultimately have "CHR ''-'' \<in> set (dropWhile is_space ?r)"
      using a by blast
    then show ?thesis by (simp add: py_strip_def strip_with_def)
  qed
  moreover have "py_strip (last (py_split (CHR ''-'') (py_strip s)))
                   = py_strip (last (py_split (CHR ''-'') s))"
    unfolding py_strip_def
    by (rule last_segment_strip [where p = is_space and c = "CHR ''-''", OF assms minus_not_space])
  ultimately show ?thesis
    by (simp add: parse_progress_def Let_def)
qed

lemma except_ValueError_spec: "except_ValueError (py_int t) 0 = Inr (case py_int t of Inl e \<Rightarrow> 0 | Inr n \<Rightarrow> n)"
  by (cases "py_int t") (auto simp: except_ValueError_def dest: py_int_ValueError)

lemma parse_progress_str_total: "\<exists>n. parse_progress (PStr s) = Inr n"
  by (simp add: parse_progress_def Let_def except_ValueError_py_int)

lemma parse_progress_total_unless_float:
  "(\<forall>f. val \<noteq> PFloat f) \<Longrightarrow> \<exists>n. parse_progress val = Inr n"
  using parse_progress_str_total by (cases val) (auto simp: parse_progress_def)

lemma parse_progress_finite_float: "parse_progress (PFloat (Finite m e)) = Inr (trunc_float m e)"
  by (simp add: parse_progress_def)

text \<open>
  C6. \<^verbatim>\<open>parse_progress(None) == 0\<close>, \<^verbatim>\<open>parse_progress(42) == 42\<close>,
  \<^verbatim>\<open>parse_progress("111 - 121") == 121\<close>, \<^verbatim>\<open>parse_progress("abc") == 0\<close> and
  \<^verbatim>\<open>parse_progress("7") == 7\<close>; and for every string that contains \<^verbatim>\<open>-\<close> the result is
  what the specification describes: the last segment of the split on \<^verbatim>\<open>-\<close>, stripped
  and parsed as an integer, or 0 when it does not parse.
\<close>

theorem parse_progress_examples_and_range:
  "parse_progress PNone = Inr 0
   \<and> parse_progress (PInt 42) = Inr 42
   \<and> parse_progress (PStr ''111 - 121'') = Inr 121
   \<and> parse_progress (PStr ''abc'') = Inr 0
   \<and> parse_progress (PStr ''7'') = Inr 7
   \<and> (\<forall>s. CHR ''-'' \<in> set s \<longrightarrow> parse_progress (PStr s) = Inr (spec_range_end s))"
proof -
  have "parse_progress PNone = Inr 0" "parse_progress (PInt 42) = Inr 42"
    by (simp_all add: parse_progress_def)
  moreover have "parse_progress (PStr ''111 - 121'') = Inr 121" by code_simp
  moreover have "parse_progress (PStr ''abc'') = Inr 0" by code_simp
  moreover have "parse_progress (PStr ''7'') = Inr 7" by code_simp
  moreover have "parse_progress (PStr s) = Inr (spec_range_end s)" if "CHR ''-'' \<in> set s" for s
    using parse_progress_str_last_segment [OF that]
    by (simp add: spec_range_end_def except_ValueError_spec)
  ultimately show ?thesis by blast
qed

theorem parse_progress_examples_and_range_witness:
  "CHR ''-'' \<in> set ''3 - 1_2 '' \<and> parse_progress (PStr ''3 - 1_2 '') = Inr 12
   \<and> CHR ''-'' \<in> set ''12 -x'' \<and> parse_progress (PStr ''12 -x'') = Inr 0"
proof -
  have a: "CHR ''-'' \<in> set ''3 - 1_2 ''" and b: "CHR ''-'' \<in> set ''12 -x''" by simp_all
  have "spec_range_end ''3 - 1_2 '' = 12" by code_simp
  moreover have "spec_range_end ''12 -x'' = 0" by code_simp
  ultimately show ?thesis
    using parse_progress_examples_and_range a b by metis
qed

text \<open>
  C8, evaluated at a float that is not a number: \<^verbatim>\<open>int(val)\<close> on line 100 is outside
  every \<^verbatim>\<open>try\<close>, so \<^verbatim>\<open>parse_progress(float('nan'))\<close> raises \<^verbatim>\<open>ValueError\<close> and
  \<^verbatim>\<open>parse_progress(float('inf'))\<close> raises \<^verbatim>\<open>OverflowError\<close>, and the loop of
  \<^verbatim>\<open>generate_ics\<close> raises with them. For every other value no exception leaves the
  function (lemma \<open>parse_progress_total_unless_float\<close> and
  \<open>parse_progress_finite_float\<close>).
\<close>

theorem parse_progress_raises_on_nan:
  "parse_progress (PFloat NaN) = Inl ValueError
   \<and> parse_progress (PFloat (Infinity False)) = Inl OverflowError
   \<and> generate_ics [\<lparr>act_id = 1, createdAt = 1000, progress = PFloat NaN, status = ''CURRENT'',
          media = \<lparr>media_id = 7, title_english = Some ''X'', title_romaji = None\<rparr>\<rparr>]
       = Inl ValueError"
  by (simp add: parse_progress_def generate_ics_def step_def locals_of_def)

text \<open>
  C10. \<^verbatim>\<open>parse_progress("-5")\<close> is 5: the \<^verbatim>\<open>-\<close> is taken as the separator. For every
  string that contains \<^verbatim>\<open>-\<close> the result is the parse of the last segment of the split
  on \<^verbatim>\<open>-\<close> (0 when it does not parse) and is never negative; the int \<^verbatim>\<open>-5\<close> is returned
  as \<^verbatim>\<open>-5\<close>.
\<close>

theorem parse_progress_leading_minus:
  "parse_progress (PStr ''-5'') = Inr 5
   \<and> (\<forall>s. CHR ''-'' \<in> set s \<longrightarrow>
         (\<exists>n. parse_progress (PStr s) = Inr n \<and> 0 \<le> n
              \<and> except_ValueError (py_int (py_strip (last (py_split (CHR ''-'') s)))) 0 = Inr n))
   \<and> parse_progress (PInt (- 5)) = Inr (- 5)"
proof -
  have "parse_progress (PStr ''-5'') = Inr 5" by code_simp
  moreover have "parse_progress (PInt (- 5)) = Inr (- 5)"
    by (simp add: parse_progress_def)
  moreover have "\<exists>n. parse_progress (PStr s) = Inr n \<and> 0 \<le> n
              \<and> except_ValueError (py_int (py_strip (last (py_split (CHR ''-'') s)))) 0 = Inr n"
    if m: "CHR ''-'' \<in> set s" for s
  proof -
    let ?t = "py_strip (last (py_split (CHR ''-'') s))"
    have "CHR ''-'' \<notin> set ?t"
      using sep_notin_last_py_split [of "CHR ''-''" s] strip_with_subset [of is_space]
      by (auto simp: py_strip_def)
    then have "0 \<le> (case py_int ?t of Inl e \<Rightarrow> 0 | Inr n \<Rightarrow> n)"
      by (cases "py_int ?t") (auto dest: py_int_nonneg)
    then show ?thesis
      using parse_progress_str_last_segment [OF m] by (simp add: except_ValueError_spec)
  qed
  ultimately show ?thesis by blast
qed

theorem parse_progress_leading_minus_witness:
  "CHR ''-'' \<in> set '' -17'' \<and> parse_progress (PStr '' -17'') = Inr 17 \<and> (0::int) \<le> 17"
proof -
  have a: "CHR ''-'' \<in> set '' -17''" by simp
  have "except_ValueError (py_int (py_strip (last (py_split (CHR ''-'') '' -17'')))) 0 = Inr 17"
    by code_simp
  then show ?thesis
    using parse_progress_leading_minus a by (metis Inr_inject)
qed

section \<open>Properties of the loop of \<^verbatim>\<open>generate_ics\<close>\<close>

lemma parse_progress_PInt: "parse_progress (PInt v) = Inr v"
  by (simp add: parse_progress_def)

lemma locals_of_Inr:
  assumes "locals_of st act = Inr l"
  shows "parse_progress (progress act) = Inr (current_progress l)"
    and "previous_progress l = (case progress_tracker st (media_id (media act)) of None \<Rightarrow> 0 | Some v \<Rightarrow> v)"
    and "chapters_read l = compute_chapters_read (current_progress l) (previous_progress l)"
    and "duration_minutes l = chapters_read l * MINUTES_PER_CHAPTER"
    and "duration_seconds l = duration_minutes l * 60"
    and "calculated_start l = shift_start (createdAt act) (global_last_end st)"
    and "calculated_end l = calculated_start l + duration_seconds l"
    and "title l = resolve_title (media act)"
    and "summary l = make_summary (status act) (title l) (current_progress l) (previous_progress l) (chapters_read l)"
  using assms
  by (auto simp: locals_of_def parse_progress_PInt Let_def split: sum.splits)

lemma locals_of_total:
  "parse_progress (progress act) = Inr cur \<Longrightarrow> \<exists>l. locals_of st act = Inr l \<and> current_progress l = cur"
  by (simp add: locals_of_def parse_progress_PInt Let_def)

lemma step_Inr:
  assumes "step st act = Inr st'"
  shows "\<exists>l. locals_of st act = Inr l
    \<and> progress_tracker st' = (if current_progress l > 0
           then (progress_tracker st)(media_id (media act) \<mapsto> current_progress l)
           else progress_tracker st)
    \<and> global_last_end st' = calculated_end l
    \<and> (case summary l of
          None \<Rightarrow> ics_lines st' = ics_lines st
        | Some s \<Rightarrow> \<exists>b. event_block act l s = Inr b \<and> ics_lines st' = ics_lines st @ b)"
  using assms
  by (auto simp: step_def Let_def split: sum.splits option.splits)

lemma compute_chapters_read_ge1: "1 \<le> compute_chapters_read cur prev"
  by (simp add: compute_chapters_read_def Let_def)

lemma step_tracker:
  "step st act = Inr st' \<Longrightarrow> progress_tracker st' k = Some v \<Longrightarrow>
     progress_tracker st k = Some v \<or> 0 < v"
  by (auto simp: step_def Let_def split: sum.splits option.splits if_splits)

lemma reachable_tracker_pos:
  "reachable st \<Longrightarrow> progress_tracker st k = Some v \<Longrightarrow> 0 < v"
proof (induction arbitrary: k v rule: reachable.induct)
  case reachable_init
  then show ?case by (simp add: initial_state_def)
next
  case (reachable_step st act st')
  from step_tracker [OF reachable_step.hyps(2) reachable_step.prems]
  show ?case using reachable_step.IH by blast
qed

text \<open>
  C1. In every iteration of the loop, with \<open>current_progress\<close> the parse of the activity's
  progress and \<open>previous_progress\<close> the tracker's value for its media (0 when unseen):
  when \<open>current_progress > previous_progress\<close>, \<open>chapters_read\<close> is their difference,
  except that it is 1 when \<open>previous_progress = 0\<close> and the difference exceeds 500; in
  every other case it is 1; and it is always at least 1.
\<close>

theorem chapters_read_rule:
  assumes "locals_of st act = Inr l"
  shows "parse_progress (progress act) = Inr (current_progress l)
    \<and> previous_progress l = (case progress_tracker st (media_id (media act)) of None \<Rightarrow> 0 | Some v \<Rightarrow> v)
    \<and> (current_progress l > previous_progress l \<longrightarrow>
          chapters_read l = (if previous_progress l = 0 \<and> current_progress l - previous_progress l > 500
                             then 1 else current_progress l - previous_progress l))
    \<and> (current_progress l \<le> previous_progress l \<longrightarrow> chapters_read l = 1)
    \<and> 1 \<le> chapters_read l"
  using locals_of_Inr(1,2,3) [OF assms]
  by (simp add: compute_chapters_read_def Let_def)

text \<open>
  C2. In every iteration, with the cursor \<open>global_last_end\<close> of the state before it: when
  \<open>createdAt\<close> is before the cursor by less than 7200 seconds the start is the cursor plus
  1; otherwise the start is \<open>createdAt\<close>; and the end is the start plus
  \<open>chapters_read * MINUTES_PER_CHAPTER * 60\<close>.
\<close>

theorem start_and_end_rule:
  assumes "locals_of st act = Inr l"
  shows "(createdAt act < global_last_end st \<and> global_last_end st - createdAt act < 7200 \<longrightarrow>
            calculated_start l = global_last_end st + 1)
    \<and> (\<not> (createdAt act < global_last_end st \<and> global_last_end st - createdAt act < 7200) \<longrightarrow>
            calculated_start l = createdAt act)
    \<and> calculated_end l = calculated_start l + chapters_read l * MINUTES_PER_CHAPTER * 60"
  using locals_of_Inr(4,5,6,7) [OF assms]
  by (simp add: shift_start_def)

text \<open>
  C5. In a state that the loop can reach, an activity whose progress parses to 0 and whose
  status is not \<^verbatim>\<open>COMPLETED\<close> is processed without an exception and appends no line, and
  the cursor becomes its (possibly shifted) start plus \<open>1 * MINUTES_PER_CHAPTER * 60\<close>;
  and after any iteration that completes, the cursor is the end computed in it.
\<close>

theorem skipped_activity_moves_cursor:
  assumes "reachable st"
  shows "(parse_progress (progress act) = Inr 0 \<and> status act \<noteq> ''COMPLETED'' \<longrightarrow>
          (\<exists>st'. step st act = Inr st' \<and> ics_lines st' = ics_lines st
              \<and> global_last_end st' = shift_start (createdAt act) (global_last_end st) + 1 * MINUTES_PER_CHAPTER * 60))
    \<and> (\<forall>st'. step st act = Inr st' \<longrightarrow>
          (\<exists>l. locals_of st act = Inr l \<and> global_last_end st' = calculated_end l))"
proof (intro conjI impI allI)
  fix st' assume "step st act = Inr st'"
  then show "\<exists>l. locals_of st act = Inr l \<and> global_last_end st' = calculated_end l"
    using step_Inr by blast
next
  assume a: "parse_progress (progress act) = Inr 0 \<and> status act \<noteq> ''COMPLETED''"
  then obtain l where l: "locals_of st act = Inr l" and c: "current_progress l = 0"
    using locals_of_total by blast
  have "0 \<le> previous_progress l"
    using locals_of_Inr(2) [OF l] reachable_tracker_pos [OF assms]
    by (auto split: option.splits simp: less_imp_le)
  with c have cr: "chapters_read l = 1"
    using locals_of_Inr(3) [OF l] by (simp add: compute_chapters_read_def)
  have s: "summary l = None"
    using locals_of_Inr(9) [OF l] a c by (simp add: make_summary_def)
  have e: "calculated_end l = shift_start (createdAt act) (global_last_end st) + 1 * MINUTES_PER_CHAPTER * 60"
    using locals_of_Inr(4,5,6,7) [OF l] cr by simp
  show "\<exists>st'. step st act = Inr st' \<and> ics_lines st' = ics_lines st
              \<and> global_last_end st' = shift_start (createdAt act) (global_last_end st) + 1 * MINUTES_PER_CHAPTER * 60"
    using l s e by (simp add: step_def Let_def)
qed


lemma step_cursor_grows:
  assumes "step st act = Inr st'" and "global_last_end st - 7200 < createdAt act"
  shows "global_last_end st < global_last_end st'"
proof -
  from step_Inr [OF assms(1)] obtain l where l: "locals_of st act = Inr l"
    and e: "global_last_end st' = calculated_end l" by blast
  have "1 \<le> chapters_read l"
    using locals_of_Inr(3) [OF l] compute_chapters_read_ge1 by simp
  then have "0 < duration_seconds l"
    using locals_of_Inr(4,5) [OF l] by (simp add: MINUTES_PER_CHAPTER_def)
  moreover have "global_last_end st \<le> calculated_start l"
    using locals_of_Inr(6) [OF l] assms(2) by (simp add: shift_start_def)
  ultimately show ?thesis
    using locals_of_Inr(7) [OF l] e by simp
qed

text \<open>
  C4, amended. The cursor after an activity is greater than the cursor after the
  activity before it whenever the later activity's \<open>createdAt\<close> is later than that cursor
  minus 7200 seconds. (An activity created 7200 seconds or more before the cursor keeps its
  \<open>createdAt\<close> as start, and the cursor can go down: see the counterexample.)
\<close>

theorem cursor_monotone_within_two_hours:
  assumes "Suc i < length (states_after st acts)"
    and "global_last_end (states_after st acts ! i) - 7200 < createdAt (acts ! Suc i)"
  shows "global_last_end (states_after st acts ! i) < global_last_end (states_after st acts ! Suc i)"
  using assms
proof (induction acts arbitrary: st i)
  case Nil
  then show ?case by simp
next
  case (Cons a as)
  from Cons.prems(1) obtain st1 where s1: "step st a = Inr st1"
    by (cases "step st a") auto
  show ?case
  proof (cases i)
    case 0
    with Cons.prems(1) s1 obtain b bs where as: "as = b # bs"
      by (cases as) auto
    with Cons.prems(1) s1 0 obtain st2 where s2: "step st1 b = Inr st2"
      by (cases "step st1 b") auto
    from Cons.prems(2) have "global_last_end st1 - 7200 < createdAt b"
      by (simp add: 0 as s1)
    from step_cursor_grows [OF s2 this] show ?thesis
      by (simp add: 0 as s1 s2)
  next
    case (Suc j)
    from Cons.prems have "Suc j < length (states_after st1 as)"
      and "global_last_end (states_after st1 as ! j) - 7200 < createdAt (as ! Suc j)"
      by (simp_all add: Suc s1)
    from Cons.IH [OF this] show ?thesis by (simp add: Suc s1)
  qed
qed

lemma binge_cursors:
  "map global_last_end (states_after initial_state (sort_key act_id binge_example)) = [740, 25000, 2240]"
  by code_simp

text \<open>
  C4 as stated fails. Three activities of one title, in ascending order of identifier and
  of \<open>createdAt\<close>: the second reads 100 chapters (the cursor becomes 25000), the third is
  created 1000 seconds after the second, 23000 seconds before the cursor, so its start is
  not shifted and the cursor falls to 2240.
\<close>

theorem cursor_decreases_counterexample:
  "global_last_end (states_after initial_state (sort_key act_id binge_example) ! 1) = 25000
   \<and> global_last_end (states_after initial_state (sort_key act_id binge_example) ! 2) = 2240
   \<and> \<not> global_last_end (states_after initial_state (sort_key act_id binge_example) ! 1)
         \<le> global_last_end (states_after initial_state (sort_key act_id binge_example) ! 2)"
  by code_simp

theorem cursor_monotone_within_two_hours_witness:
  "Suc 0 < length (states_after initial_state (sort_key act_id binge_example))
   \<and> global_last_end (states_after initial_state (sort_key act_id binge_example) ! 0) - 7200
        < createdAt (sort_key act_id binge_example ! Suc 0)
   \<and> global_last_end (states_after initial_state (sort_key act_id binge_example) ! 0)
        < global_last_end (states_after initial_state (sort_key act_id binge_example) ! Suc 0)"
proof -
  have a: "Suc 0 < length (states_after initial_state (sort_key act_id binge_example))"
    by code_simp
  have b: "global_last_end (states_after initial_state (sort_key act_id binge_example) ! 0) - 7200
        < createdAt (sort_key act_id binge_example ! Suc 0)"
    by code_simp
  from cursor_monotone_within_two_hours [OF a b] a b show ?thesis by blast
qed

theorem chapters_read_rule_witness:
  "(\<exists>l. locals_of initial_state (example_activity media_X 1000 (PInt 600) ''CURRENT'') = Inr l
       \<and> previous_progress l = 0 \<and> current_progress l = 600 \<and> chapters_read l = 1)
   \<and> (\<exists>l. locals_of tracked_state (example_activity media_X 1000 (PInt 25) ''CURRENT'') = Inr l
       \<and> previous_progress l = 10 \<and> current_progress l = 25 \<and> chapters_read l = 15)
   \<and> (\<exists>l. locals_of tracked_state (example_activity media_X 1000 (PStr ''3 - 8'') ''CURRENT'') = Inr l
       \<and> previous_progress l = 10 \<and> current_progress l = 8 \<and> chapters_read l = 1)"
proof -
  have p1: "parse_progress (progress (example_activity media_X 1000 (PInt 600) ''CURRENT'')) = Inr 600"
    and p2: "parse_progress (progress (example_activity media_X 1000 (PInt 25) ''CURRENT'')) = Inr 25"
    by (simp_all add: example_activity_def parse_progress_def)
  have p3: "parse_progress (progress (example_activity media_X 1000 (PStr ''3 - 8'') ''CURRENT'')) = Inr 8"
    by code_simp
  have t0: "progress_tracker initial_state (media_id (media (example_activity media_X t p s))) = None" for t p s
    by (simp add: initial_state_def)
  have t1: "progress_tracker tracked_state (media_id (media (example_activity media_X t p s))) = Some 10" for t p s
    by (simp add: tracked_state_def example_activity_def media_X_def)
  from locals_of_total [OF p1] obtain l1 where
    l1: "locals_of initial_state (example_activity media_X 1000 (PInt 600) ''CURRENT'') = Inr l1"
    and "current_progress l1 = 600" by blast
  with chapters_read_rule [OF l1] t0 have "previous_progress l1 = 0 \<and> current_progress l1 = 600 \<and> chapters_read l1 = 1"
    by simp
  moreover
  from locals_of_total [OF p2] obtain l2 where
    l2: "locals_of tracked_state (example_activity media_X 1000 (PInt 25) ''CURRENT'') = Inr l2"
    and "current_progress l2 = 25" by blast
  with chapters_read_rule [OF l2] t1 have "previous_progress l2 = 10 \<and> current_progress l2 = 25 \<and> chapters_read l2 = 15"
    by simp
  moreover
  from locals_of_total [OF p3] obtain l3 where
    l3: "locals_of tracked_state (example_activity media_X 1000 (PStr ''3 - 8'') ''CURRENT'') = Inr l3"
    and "current_progress l3 = 8" by blast
  with chapters_read_rule [OF l3] t1 have "previous_progress l3 = 10 \<and> current_progress l3 = 8 \<and> chapters_read l3 = 1"
    by simp
  ultimately show ?thesis using l1 l2 l3 by blast
qed

theorem start_and_end_rule_witness:
  "(\<exists>l. locals_of tracked_state (example_activity media_X 1010 (PInt 25) ''CURRENT'') = Inr l
       \<and> calculated_start l = 3401 \<and> calculated_end l = 7001)
   \<and> (\<exists>l. locals_of tracked_state (example_activity media_X 3400 (PInt 25) ''CURRENT'') = Inr l
       \<and> calculated_start l = 3400 \<and> calculated_end l = 7000)
   \<and> (\<exists>l. locals_of (tracked_state\<lparr>global_last_end := 9000\<rparr>) (example_activity media_X 1800 (PInt 25) ''CURRENT'') = Inr l
       \<and> calculated_start l = 1800 \<and> calculated_end l = 5400)"
proof -
  have p: "parse_progress (progress (example_activity media_X t (PInt 25) ''CURRENT'')) = Inr 25" for t
    by (simp add: example_activity_def parse_progress_def)
  have t1: "progress_tracker (tracked_state\<lparr>global_last_end := g\<rparr>) (media_id (media (example_activity media_X t p s))) = Some 10" for t p s g
    by (simp add: tracked_state_def example_activity_def media_X_def)
  have cr: "chapters_read l = 15"
    if "locals_of (tracked_state\<lparr>global_last_end := g\<rparr>) (example_activity media_X t (PInt 25) ''CURRENT'') = Inr l" for l g t
    using locals_of_Inr(1,2,3) [OF that] p [of t] t1 [of g t]
    by (simp add: compute_chapters_read_def)
  have g: "global_last_end tracked_state = 3400" "tracked_state\<lparr>global_last_end := 3400\<rparr> = tracked_state"
    by (simp_all add: tracked_state_def)
  have c: "createdAt (example_activity media_X t q s) = t" for t q s
    by (simp add: example_activity_def)
  from locals_of_total [OF p] obtain l1 where
    l1: "locals_of tracked_state (example_activity media_X 1010 (PInt 25) ''CURRENT'') = Inr l1" by blast
  from start_and_end_rule [OF l1] cr [of 3400 1010 l1] l1
  have "calculated_start l1 = 3401 \<and> calculated_end l1 = 7001"
    by (simp add: g c MINUTES_PER_CHAPTER_def)
  moreover
  from locals_of_total [OF p] obtain l2 where
    l2: "locals_of tracked_state (example_activity media_X 3400 (PInt 25) ''CURRENT'') = Inr l2" by blast
  from start_and_end_rule [OF l2] cr [of 3400 3400 l2] l2
  have "calculated_start l2 = 3400 \<and> calculated_end l2 = 7000"
    by (simp add: g c MINUTES_PER_CHAPTER_def)
  moreover
  from locals_of_total [OF p] obtain l3 where
    l3: "locals_of (tracked_state\<lparr>global_last_end := 9000\<rparr>) (example_activity media_X 1800 (PInt 25) ''CURRENT'') = Inr l3" by blast
  from start_and_end_rule [OF l3] cr [OF l3]
  have "calculated_start l3 = 1800 \<and> calculated_end l3 = 5400"
    by (simp add: c MINUTES_PER_CHAPTER_def)
  ultimately show ?thesis using l1 l2 l3 by blast
qed

theorem skipped_activity_moves_cursor_witness:
  "reachable initial_state
   \<and> parse_progress (progress (example_activity media_X 1000 PNone ''CURRENT'')) = Inr 0
   \<and> status (example_activity media_X 1000 PNone ''CURRENT'') \<noteq> ''COMPLETED''
   \<and> (\<exists>st'. step initial_state (example_activity media_X 1000 PNone ''CURRENT'') = Inr st'
         \<and> ics_lines st' = ics_lines initial_state \<and> global_last_end st' = 1240)"
proof -
  have r: "reachable initial_state" by (rule reachable_init)
  have p: "parse_progress (progress (example_activity media_X 1000 PNone ''CURRENT'')) = Inr 0"
    by (simp add: example_activity_def parse_progress_def)
  have s: "status (example_activity media_X 1000 PNone ''CURRENT'') \<noteq> ''COMPLETED''"
    by (simp add: example_activity_def)
  have e: "shift_start (createdAt (example_activity media_X 1000 PNone ''CURRENT'')) (global_last_end initial_state)
             + 1 * MINUTES_PER_CHAPTER * 60 = 1240"
    by (simp add: example_activity_def initial_state_def shift_start_def MINUTES_PER_CHAPTER_def)
  from skipped_activity_moves_cursor [OF r, of "example_activity media_X 1000 PNone ''CURRENT''"] p s e r
  show ?thesis by simp
qed


lemma str_int_examples: "str_int 5 = ''5''" "str_int 16 = ''16''" "str_int 20 = ''20''"
  by code_simp+

text \<open>
  C7. In every iteration: with status \<^verbatim>\<open>COMPLETED\<close> the summary is \<^verbatim>\<open>Completed: {title}\<close>;
  otherwise with \<open>chapters_read = 1\<close> and \<open>current_progress = 5\<close> it is
  \<^verbatim>\<open>Read {title} Ch. 5\<close>, and with \<open>chapters_read > 1\<close>, \<open>previous_progress = 15\<close> and
  \<open>current_progress = 20\<close> it is \<^verbatim>\<open>Read {title} (Ch. 16-20)\<close> (and in general the two
  forms with the numbers rendered in decimal). The title is the English name when it is
  present, else the romanized name when it is present, else \<^verbatim>\<open>Unknown Title\<close>; a name is
  present when it is neither \<^verbatim>\<open>None\<close> nor the empty string.
\<close>

theorem summary_and_title_rule:
  assumes "locals_of st act = Inr l"
  shows "(status act = ''COMPLETED'' \<longrightarrow> summary l = Some (''Completed: '' @ title l))
    \<and> (status act \<noteq> ''COMPLETED'' \<and> chapters_read l = 1 \<and> current_progress l = 5 \<longrightarrow>
          summary l = Some (''Read '' @ title l @ '' Ch. 5''))
    \<and> (status act \<noteq> ''COMPLETED'' \<and> chapters_read l > 1 \<and> previous_progress l = 15
          \<and> current_progress l = 20 \<longrightarrow>
          summary l = Some (''Read '' @ title l @ '' (Ch. 16-20)''))
    \<and> (status act \<noteq> ''COMPLETED'' \<and> current_progress l \<noteq> 0 \<longrightarrow>
          summary l = Some (if chapters_read l > 1
                            then ''Read '' @ title l @ '' (Ch. '' @ str_int (previous_progress l + 1)
                                   @ ''-'' @ str_int (current_progress l) @ '')''
                            else ''Read '' @ title l @ '' Ch. '' @ str_int (current_progress l)))
    \<and> (\<forall>e. title_english (media act) = Some e \<and> e \<noteq> [] \<longrightarrow> title l = e)
    \<and> (\<forall>r. \<not> truthy_str (title_english (media act)) \<and> title_romaji (media act) = Some r \<and> r \<noteq> []
            \<longrightarrow> title l = r)
    \<and> (\<not> truthy_str (title_english (media act)) \<and> \<not> truthy_str (title_romaji (media act))
            \<longrightarrow> title l = ''Unknown Title'')"
proof -
  have s: "summary l = make_summary (status act) (title l) (current_progress l)
                         (previous_progress l) (chapters_read l)"
    by (rule locals_of_Inr(9) [OF assms])
  have t: "title l = resolve_title (media act)"
    by (rule locals_of_Inr(8) [OF assms])
  have "status act = ''COMPLETED'' \<longrightarrow> summary l = Some (''Completed: '' @ title l)"
    by (simp add: s make_summary_def)
  moreover have "status act \<noteq> ''COMPLETED'' \<and> chapters_read l = 1 \<and> current_progress l = 5 \<longrightarrow>
          summary l = Some (''Read '' @ title l @ '' Ch. 5'')"
    by (simp add: s make_summary_def str_int_examples)
  moreover have "status act \<noteq> ''COMPLETED'' \<and> chapters_read l > 1 \<and> previous_progress l = 15
          \<and> current_progress l = 20 \<longrightarrow>
          summary l = Some (''Read '' @ title l @ '' (Ch. 16-20)'')"
    by (simp add: s make_summary_def str_int_examples)
  moreover have "status act \<noteq> ''COMPLETED'' \<and> current_progress l \<noteq> 0 \<longrightarrow>
          summary l = Some (if chapters_read l > 1
                            then ''Read '' @ title l @ '' (Ch. '' @ str_int (previous_progress l + 1)
                                   @ ''-'' @ str_int (current_progress l) @ '')''
                            else ''Read '' @ title l @ '' Ch. '' @ str_int (current_progress l))"
    by (simp add: s make_summary_def)
  moreover have "\<forall>e. title_english (media act) = Some e \<and> e \<noteq> [] \<longrightarrow> title l = e"
    by (simp add: t resolve_title_def)
  moreover have "\<forall>r. \<not> truthy_str (title_english (media act)) \<and> title_romaji (media act) = Some r \<and> r \<noteq> []
            \<longrightarrow> title l = r"
    by (auto simp: t resolve_title_def truthy_str_def split: option.splits)
  moreover have "\<not> truthy_str (title_english (media act)) \<and> \<not> truthy_str (title_romaji (media act))
            \<longrightarrow> title l = ''Unknown Title''"
    by (auto simp: t resolve_title_def truthy_str_def split: option.splits)
  ultimately show ?thesis by blast
qed


theorem summary_and_title_rule_witness:
  "(\<exists>l. locals_of initial_state (example_activity media_Y 1000 (PInt 3) ''COMPLETED'') = Inr l
       \<and> title l = ''Y'' \<and> summary l = Some ''Completed: Y'')
   \<and> (\<exists>l. locals_of initial_state (example_activity media_untitled 1000 PNone ''COMPLETED'') = Inr l
       \<and> title l = ''Unknown Title'' \<and> summary l = Some ''Completed: Unknown Title'')
   \<and> (\<exists>l. locals_of tracked_state (example_activity media_X 1000 (PInt 5) ''CURRENT'') = Inr l
       \<and> chapters_read l = 1 \<and> current_progress l = 5 \<and> title l = ''X''
       \<and> summary l = Some ''Read X Ch. 5'')
   \<and> (\<exists>l. locals_of (tracked_state\<lparr>progress_tracker := [7 \<mapsto> 15]\<rparr>)
              (example_activity media_X 1000 (PInt 20) ''CURRENT'') = Inr l
       \<and> chapters_read l > 1 \<and> previous_progress l = 15 \<and> current_progress l = 20
       \<and> summary l = Some ''Read X (Ch. 16-20)'')"
proof -
  have p: "parse_progress (progress (example_activity m t (PInt n) s)) = Inr n"
    "parse_progress (progress (example_activity m t PNone s)) = Inr 0" for m t n s
    by (simp_all add: example_activity_def parse_progress_def)
  have f: "status (example_activity m t q s) = s" "media (example_activity m t q s) = m" for m t q s
    by (simp_all add: example_activity_def)
  from locals_of_total [OF p(1)] obtain l1 where
    l1: "locals_of initial_state (example_activity media_Y 1000 (PInt 3) ''COMPLETED'') = Inr l1"
    by blast
  from summary_and_title_rule [OF l1]
  have "title l1 = ''Y'' \<and> summary l1 = Some ''Completed: Y''"
    by (simp add: f media_Y_def truthy_str_def)
  moreover
  from locals_of_total [OF p(2)] obtain l2 where
    l2: "locals_of initial_state (example_activity media_untitled 1000 PNone ''COMPLETED'') = Inr l2"
    by blast
  from summary_and_title_rule [OF l2]
  have "title l2 = ''Unknown Title'' \<and> summary l2 = Some ''Completed: Unknown Title''"
    by (simp add: f media_untitled_def truthy_str_def)
  moreover
  from locals_of_total [OF p(1)] obtain l3 where
    l3: "locals_of tracked_state (example_activity media_X 1000 (PInt 5) ''CURRENT'') = Inr l3"
    and c3: "current_progress l3 = 5"
    by blast
  have r3: "chapters_read l3 = 1"
    using locals_of_Inr(2,3) [OF l3] c3
    by (simp add: f media_X_def tracked_state_def compute_chapters_read_def)
  from summary_and_title_rule [OF l3] r3 c3
  have "title l3 = ''X'' \<and> summary l3 = Some ''Read X Ch. 5''"
    by (simp add: f media_X_def)
  moreover
  from locals_of_total [OF p(1)] obtain l4 where
    l4: "locals_of (tracked_state\<lparr>progress_tracker := [7 \<mapsto> 15]\<rparr>)
              (example_activity media_X 1000 (PInt 20) ''CURRENT'') = Inr l4"
    and c4: "current_progress l4 = 20"
    by blast
  have r4: "previous_progress l4 = 15 \<and> chapters_read l4 = 5"
    using locals_of_Inr(2,3) [OF l4] c4
    by (simp add: f media_X_def tracked_state_def compute_chapters_read_def)
  from summary_and_title_rule [OF l4] r4 c4
  have "summary l4 = Some ''Read X (Ch. 16-20)''"
    by (simp add: f media_X_def)
  ultimately show ?thesis using l1 l2 l3 l4 r3 c3 r4 c4 by auto
qed

lemma scenario_stamps:
  "format_date_ics 1000 = Inr ''19700101T001640Z''"
  "format_date_ics 3400 = Inr ''19700101T005640Z''"
  "format_date_ics 3401 = Inr ''19700101T005641Z''"
  "format_date_ics 7001 = Inr ''19700101T015641Z''"
  by code_simp+

lemma scenario_numbers:
  "str_int 1 = ''1''" "str_int 2 = ''2''" "str_int 10 = ''10''" "str_int 11 = ''11''"
  "str_int 15 = ''15''" "str_int 25 = ''25''" "str_int 40 = ''40''" "str_int 60 = ''60''"
  by code_simp+

text \<open>
  C3. The two activities of the scenario, for any media \<open>m\<close>: the loop computes
  \<open>chapters_read = 10\<close>, start 1000, end 3400 for the first and \<open>previous_progress = 10\<close>,
  \<open>current_progress = 25\<close>, \<open>chapters_read = 15\<close>, start 3401, end 7001 for the second, and
  the output has exactly these two event blocks.
\<close>

theorem two_activity_scenario:
  "sessions initial_state (sort_key act_id (scenario m))
     = [\<lparr>title = resolve_title m, current_progress = 10, previous_progress = 0,
          chapters_read = 10, duration_minutes = 40, duration_seconds = 2400,
          calculated_start = 1000, calculated_end = 3400,
          summary = Some (''Read '' @ resolve_title m @ '' (Ch. 1-10)'')\<rparr>,
        \<lparr>title = resolve_title m, current_progress = 25, previous_progress = 10,
          chapters_read = 15, duration_minutes = 60, duration_seconds = 3600,
          calculated_start = 3401, calculated_end = 7001,
          summary = Some (''Read '' @ resolve_title m @ '' (Ch. 11-25)'')\<rparr>]
   \<and> generate_ics (scenario m)
     = Inr [''BEGIN:VCALENDAR'', ''VERSION:2.0'', ''PRODID:-//AniList History Export//EN'',
            ''CALSCALE:GREGORIAN'', ''METHOD:PUBLISH'',
            ''BEGIN:VEVENT'', ''UID:anilist-1@anilist.co'',
            ''DTSTAMP:19700101T001640Z'', ''DTSTART:19700101T001640Z'', ''DTEND:19700101T005640Z'',
            ''SUMMARY:Read '' @ resolve_title m @ '' (Ch. 1-10)'',
            ''DESCRIPTION:Read 10 chapters. Duration: 40 mins.'', ''END:VEVENT'',
            ''BEGIN:VEVENT'', ''UID:anilist-2@anilist.co'',
            ''DTSTAMP:19700101T005641Z'', ''DTSTART:19700101T005641Z'', ''DTEND:19700101T015641Z'',
            ''SUMMARY:Read '' @ resolve_title m @ '' (Ch. 11-25)'',
            ''DESCRIPTION:Read 15 chapters. Duration: 60 mins.'', ''END:VEVENT'',
            ''END:VCALENDAR'']"
proof -
  define a1 where "a1 = \<lparr>act_id = 1, createdAt = 1000, progress = PInt 10, status = ''CURRENT'', media = m\<rparr>"
  define a2 where "a2 = \<lparr>act_id = 2, createdAt = 1010, progress = PInt 25, status = ''CURRENT'', media = m\<rparr>"
  define sm1 where "sm1 = ''Read '' @ resolve_title m @ '' (Ch. 1-10)''"
  define sm2 where "sm2 = ''Read '' @ resolve_title m @ '' (Ch. 11-25)''"
  define l1 where "l1 = \<lparr>title = resolve_title m, current_progress = 10, previous_progress = 0,
          chapters_read = 10, duration_minutes = 40, duration_seconds = 2400,
          calculated_start = 1000, calculated_end = 3400, summary = Some sm1\<rparr>"
  define l2 where "l2 = \<lparr>title = resolve_title m, current_progress = 25, previous_progress = 10,
          chapters_read = 15, duration_minutes = 60, duration_seconds = 3600,
          calculated_start = 3401, calculated_end = 7001, summary = Some sm2\<rparr>"
  define b1 where "b1 = [''BEGIN:VEVENT'', ''UID:anilist-1@anilist.co'',
            ''DTSTAMP:19700101T001640Z'', ''DTSTART:19700101T001640Z'', ''DTEND:19700101T005640Z'',
            ''SUMMARY:'' @ sm1,
            ''DESCRIPTION:Read 10 chapters. Duration: 40 mins.'', ''END:VEVENT'']"
  define b2 where "b2 = [''BEGIN:VEVENT'', ''UID:anilist-2@anilist.co'',
            ''DTSTAMP:19700101T005641Z'', ''DTSTART:19700101T005641Z'', ''DTEND:19700101T015641Z'',
            ''SUMMARY:'' @ sm2,
            ''DESCRIPTION:Read 15 chapters. Duration: 60 mins.'', ''END:VEVENT'']"
  define s1 where "s1 = \<lparr>progress_tracker = [media_id m \<mapsto> 10], global_last_end = 3400,
       ics_lines = ics_lines initial_state @ b1\<rparr>"
  define s2 where "s2 = \<lparr>progress_tracker = [media_id m \<mapsto> 25], global_last_end = 7001,
       ics_lines = ics_lines initial_state @ b1 @ b2\<rparr>"
  have srt: "sort_key act_id (scenario m) = [a1, a2]"
    by (simp add: scenario_def a1_def a2_def)
  have l1: "locals_of initial_state a1 = Inr l1"
    by (simp add: locals_of_def parse_progress_PInt initial_state_def compute_chapters_read_def
        MINUTES_PER_CHAPTER_def shift_start_def make_summary_def scenario_numbers Let_def
        a1_def l1_def sm1_def)
  have e1: "event_block a1 l1 sm1 = Inr b1"
    by (simp add: event_block_def scenario_stamps scenario_numbers a1_def l1_def b1_def)
  have f1: "summary l1 = Some sm1" "current_progress l1 = 10" "calculated_end l1 = 3400"
    "media_id (media a1) = media_id m"
    by (simp_all add: l1_def a1_def)
  have st1: "step initial_state a1 = Inr s1"
    unfolding step_def l1
    by (simp add: Let_def f1 e1 s1_def) (simp add: initial_state_def)
  have l2: "locals_of s1 a2 = Inr l2"
    by (simp add: locals_of_def parse_progress_PInt compute_chapters_read_def
        MINUTES_PER_CHAPTER_def shift_start_def make_summary_def scenario_numbers Let_def
        a2_def l2_def s1_def sm2_def)
  have e2: "event_block a2 l2 sm2 = Inr b2"
    by (simp add: event_block_def scenario_stamps scenario_numbers a2_def l2_def b2_def)
  have f2: "summary l2 = Some sm2" "current_progress l2 = 25" "calculated_end l2 = 7001"
    "media_id (media a2) = media_id m"
    by (simp_all add: l2_def a2_def)
  have st2: "step s1 a2 = Inr s2"
    unfolding step_def l2
    by (simp add: Let_def f2 e2) (simp add: s1_def s2_def)
  have "sessions initial_state (sort_key act_id (scenario m)) = [l1, l2]"
    by (simp add: srt l1 st1 l2 st2)
  moreover have "generate_ics (scenario m) = Inr (ics_lines initial_state @ b1 @ b2 @ [''END:VCALENDAR''])"
    by (simp add: generate_ics_def srt st1 st2 s2_def)
  ultimately show ?thesis
    by (simp add: initial_state_def l1_def l2_def b1_def b2_def sm1_def sm2_def)
qed

section \<open>The output of \<^verbatim>\<open>generate_ics\<close>\<close>























end
